theory Spec2Isabelle
  imports Main "HOL-Library.AList" "HOL-Library.Sublist"
begin

section \<open>Values, errors and field descriptors\<close>

text \<open>
  Raw values as the search engine's client hands them over (decoded JSON): null, booleans,
  integers, strings, lists and mappings with string keys. A Python \<open>dict\<close> keeps its
  insertion order, so a mapping is an association list; \<open>d[k] = v\<close> is
  \<open>AList.update\<close> (replace in place, or append) and \<open>d.get(k)\<close> is \<open>dict_get\<close>.
  \<open>PObject\<close> stands for an object of any other kind (a class, a bound method, a
  logger), named for reference: it is true, it is no string, list or mapping, and it has no
  method \<open>get\<close> or \<open>split\<close>.
\<close>

datatype pyval =
    PNone
  | PBool bool
  | PInt int
  | PStr string
  | PList "pyval list"
  | PDict "(string \<times> pyval) list"
  | PObject string

type_synonym pydict = "(string \<times> pyval) list"

text \<open>The exceptions that can leave the modelled code.\<close>

datatype error = ValueError | AttributeError | TypeError | IndexError | ValidationError

text \<open>Python's truth value of an object (\<open>if x:\<close>, \<open>not x\<close>).\<close>

fun truthy :: "pyval \<Rightarrow> bool" where
  "truthy PNone = False"
| "truthy (PBool b) = b"
| "truthy (PInt n) = (n \<noteq> 0)"
| "truthy (PStr s) = (s \<noteq> [])"
| "truthy (PList xs) = (xs \<noteq> [])"
| "truthy (PDict d) = (d \<noteq> [])"
| "truthy (PObject n) = True"

definition dict_get :: "pydict \<Rightarrow> string \<Rightarrow> pyval" where
  "dict_get d k = (case map_of d k of Some v \<Rightarrow> v | None \<Rightarrow> PNone)"

text \<open>
  \<open>nested.get(field_name)\<close> on an arbitrary object: only a mapping has the method;
  on any other value the attribute lookup raises.
\<close>

fun py_get :: "pyval \<Rightarrow> string \<Rightarrow> error + pyval" where
  "py_get (PDict d) k = Inr (dict_get d k)"
| "py_get _ k = Inl AttributeError"

text \<open>
  A field descriptor. \<open>SearchField\<close> stands for the library's non-nested field classes:
  its default (\<open>None\<close> when not provided), its conversion function (which may raise),
  and the model field attached during registration (its name and whether it is the primary
  key). \<open>NestedField\<close> carries the child descriptors in declaration order; it inherits
  the base class's conversion, the identity.
\<close>

datatype field =
    SearchField (fdefault: "pyval option") (is_multivalued: bool)
      (fconvert: "pyval \<Rightarrow> error + pyval") (model_field: "(string \<times> bool) option")
  | NestedField (fdefault: "pyval option") (is_multivalued: bool)
      (properties: "(string \<times> field) list")

fun is_nested :: "field \<Rightarrow> bool" where
  "is_nested (NestedField _ _ _) = True"
| "is_nested (SearchField _ _ _ _) = False"

definition has_default :: "field \<Rightarrow> bool" where
  "has_default f = (fdefault f \<noteq> None)"

definition default :: "field \<Rightarrow> pyval" where
  "default f = (case fdefault f of Some d \<Rightarrow> d | None \<Rightarrow> PNone)"

fun convert :: "field \<Rightarrow> pyval \<Rightarrow> error + pyval" where
  "convert (SearchField _ _ c _) v = c v"
| "convert (NestedField _ _ _) v = Inr v"

section \<open>Search result rows\<close>

text \<open>
  One row of a query result. The row object has attributes of three origins, which
  attribute lookup tries in this order:
  \<^item> \<open>pk\<close>, and in \<open>own_attrs\<close> the other attributes that the library's
    constructor sets (the score, the application label, ...) and the properties of its
    class (the model, the object, ...); the constructor keeps no document field of such a
    name, and a property is found before any instance attribute;
  \<^item> in \<open>attrs\<close> the attributes set from the engine's document (among them the
    composite identifier \<open>id\<close>);
  \<^item> in \<open>class_attrs\<close> the methods and other plain attributes of the class, found
    only when the instance has no attribute of the name.

  What the library gives the object is not part of this repository, so \<open>own_attrs\<close>
  and \<open>class_attrs\<close> are given with the row. \<open>u_fields\<close> is the attribute
  \<open>_fields\<close>: \<open>None\<close> when it was never set, otherwise the query set's list.
  \<open>u_dict\<close> is the attribute \<open>_dict\<close>: a reference to the cached dictionary in the
  store. \<open>index\<close> is the outcome of looking the row's model up in the index registry
  (\<open>None\<close> when the lookup raises \<open>NotHandled\<close>), \<open>pk_attname\<close> and
  \<open>pk_to_python\<close> belong to the model's primary-key field.
\<close>

record row =
  pk :: pyval
  own_attrs :: pydict
  attrs :: pydict
  class_attrs :: pydict
  u_fields :: "string list option"
  u_dict :: "nat option"
  index :: "(string \<times> field) list option"
  pk_attname :: string
  pk_to_python :: "string \<Rightarrow> error + pyval"

definition DOCUMENT_FIELD :: string where
  "DOCUMENT_FIELD = ''text''"

text \<open>
  \<open>getattr(self, name, None)\<close>, and \<open>self.name\<close> for a name that need not exist:
  the lookup in the order above; a missing attribute reads as null, by \<open>__getattr__\<close>.
\<close>

definition getattr_row :: "row \<Rightarrow> string \<Rightarrow> pyval" where
  "getattr_row self name =
     (if name = ''pk'' then pk self
      else (case map_of (own_attrs self) name of
              Some v \<Rightarrow> v
            | None \<Rightarrow>
                (case map_of (attrs self) name of
                   Some v \<Rightarrow> v
                 | None \<Rightarrow> dict_get (class_attrs self) name)))"

text \<open>
  The three attributes that this class itself keeps on the row are state of the projection:
  \<open>_dict\<close> is the dictionary under construction, \<open>_fields\<close> the allowlist and
  \<open>django_id\<close> a property. \<open>getattr_row\<close> does not read them, so statements about
  the values read for declared fields are made for an index that declares no field of such a
  name.
\<close>

definition own_names :: "string list" where
  "own_names = [''_fields'', ''_dict'', ''django_id'']"

definition well_named :: "(string \<times> field) list \<Rightarrow> bool" where
  "well_named flds = list_all (\<lambda>nf. fst nf \<notin> set own_names) flds"

text \<open>\<open>str.split(sep)\<close> for a one-character separator: always at least one piece.\<close>

fun split_on :: "char \<Rightarrow> string \<Rightarrow> string list" where
  "split_on c [] = [[]]"
| "split_on c (x # xs) =
     (if x = c then [] # split_on c xs
      else (case split_on c xs of w # ws \<Rightarrow> (x # w) # ws | [] \<Rightarrow> [[x]]))"

text \<open>
  The property \<open>django_id\<close>: the last piece of the composite identifier, coerced by the
  primary-key field. An identifier that is not a string has no \<open>split\<close>. The class
  defines \<open>__getattr__\<close>, so an attribute error raised inside the property does not
  leave it: the lookup falls back to \<open>__getattr__\<close>, which reads the entry
  \<open>django_id\<close> of the instance dictionary (there only when the document had such a
  field) or gives null. Any other error is raised.
\<close>

definition django_id :: "row \<Rightarrow> error + pyval" where
  "django_id self =
     (case (case getattr_row self ''id'' of
              PStr s \<Rightarrow> pk_to_python self (last (split_on CHR ''.'' s))
            | _ \<Rightarrow> Inl AttributeError) of
        Inl AttributeError \<Rightarrow> Inr (dict_get (attrs self) ''django_id'')
      | r \<Rightarrow> r)"

definition is_need_dump_field :: "row \<Rightarrow> string \<Rightarrow> bool" where
  "is_need_dump_field self field_name =
     (case u_fields self of
        Some (x # xs) \<Rightarrow> field_name \<in> set (x # xs)
      | _ \<Rightarrow> True)"

section \<open>Projection of nested values\<close>

text \<open>
  The three mutually recursive methods, and the loop of \<open>_single_nested_to_dict\<close> over
  the child descriptors with the dictionary built so far.
\<close>

fun nested_to_dict :: "row \<Rightarrow> field \<Rightarrow> pyval \<Rightarrow> bool \<Rightarrow> error + pyval"
  and single_nested_to_dict :: "row \<Rightarrow> field \<Rightarrow> pyval \<Rightarrow> bool \<Rightarrow> error + pydict"
  and multiple_nested_to_dict :: "row \<Rightarrow> field \<Rightarrow> pyval list \<Rightarrow> bool \<Rightarrow> error + pydict list"
  and single_loop :: "row \<Rightarrow> (string \<times> field) list \<Rightarrow> pyval \<Rightarrow> bool \<Rightarrow> pydict \<Rightarrow> error + pydict"
where
  "nested_to_dict self f nested fields_only =
     (case nested of
        PNone \<Rightarrow> (if has_default f then Inr (default f) else Inr PNone)
      | PList xs \<Rightarrow>
          (case multiple_nested_to_dict self f xs fields_only of
             Inl e \<Rightarrow> Inl e
           | Inr ys \<Rightarrow> Inr (PList (map PDict ys)))
      | PDict d \<Rightarrow>
          (case single_nested_to_dict self f (PDict d) fields_only of
             Inl e \<Rightarrow> Inl e
           | Inr v \<Rightarrow> if is_multivalued f then Inr (PList [PDict v]) else Inr (PDict v))
      | _ \<Rightarrow> Inl ValueError)"
| "single_nested_to_dict self f nested fields_only =
     (if \<not> truthy nested then Inr []
      else (case f of
              NestedField _ _ props \<Rightarrow> single_loop self props nested fields_only []
            | SearchField _ _ _ _ \<Rightarrow> Inl AttributeError))"
| "multiple_nested_to_dict self f [] fields_only = Inr []"
| "multiple_nested_to_dict self f (x # xs) fields_only =
     (case single_nested_to_dict self f x fields_only of
        Inl e \<Rightarrow> Inl e
      | Inr y \<Rightarrow>
          (case multiple_nested_to_dict self f xs fields_only of
             Inl e \<Rightarrow> Inl e
           | Inr ys \<Rightarrow> Inr (y # ys)))"
| "single_loop self [] nested fields_only acc = Inr acc"
| "single_loop self ((field_name, field_instance) # rest) nested fields_only acc =
     (if fields_only \<and> \<not> is_need_dump_field self field_name
      then single_loop self rest nested fields_only acc
      else (case py_get nested field_name of
              Inl e \<Rightarrow> Inl e
            | Inr v \<Rightarrow>
                if is_nested field_instance
                then (case nested_to_dict self field_instance v fields_only of
                        Inl e \<Rightarrow> Inl e
                      | Inr w \<Rightarrow>
                          single_loop self rest nested fields_only
                            (AList.update field_name w acc))
                else (case convert field_instance
                             (if v = PNone \<and> has_default field_instance
                              then default field_instance else v) of
                        Inl e \<Rightarrow> Inl e
                      | Inr c \<Rightarrow>
                          single_loop self rest nested fields_only
                            (case model_field field_instance of
                               Some (mname, True) \<Rightarrow>
                                 AList.update mname c (AList.update field_name c acc)
                             | _ \<Rightarrow> AList.update field_name c acc))))"

text \<open>
  The equations of the two methods that match any argument are unfolded by hand, not by the
  simplifier.
\<close>

declare nested_to_dict.simps [simp del] single_nested_to_dict.simps [simp del]

section \<open>Projection of a row\<close>

text \<open>
  The dictionary a row caches is a mutable object that the caller receives by reference,
  so it lives in a store: a list of dictionaries addressed by position. Allocation appends.
\<close>

type_synonym store = "pydict list"

text \<open>
  The loop of \<open>to_dict\<close> over the index's declared fields, on the dictionary held in
  \<open>_dict\<close>. When a field raises, the dictionary keeps what was written before.
\<close>

fun to_dict_loop :: "row \<Rightarrow> (string \<times> field) list \<Rightarrow> bool \<Rightarrow> pydict \<Rightarrow> error option \<times> pydict" where
  "to_dict_loop self [] fields_inheritance d = (None, d)"
| "to_dict_loop self ((field_name, f) # rest) fields_inheritance d =
     (if \<not> is_need_dump_field self field_name
      then to_dict_loop self rest fields_inheritance d
      else if field_name = DOCUMENT_FIELD \<and> \<not> truthy (getattr_row self field_name)
      then to_dict_loop self rest fields_inheritance d
      else if is_nested f
      then (case nested_to_dict self f (getattr_row self field_name) fields_inheritance of
              Inl e \<Rightarrow> (Some e, d)
            | Inr w \<Rightarrow>
                to_dict_loop self rest fields_inheritance (AList.update field_name w d))
      else (case convert f
                   (if getattr_row self field_name = PNone \<and> has_default f
                    then default f else getattr_row self field_name) of
              Inl e \<Rightarrow> (Some e, d)
            | Inr c \<Rightarrow>
                to_dict_loop self rest fields_inheritance (AList.update field_name c d)))"

text \<open>
  \<open>to_dict\<close> returns a reference to a dictionary (or raises), and leaves the row and the
  store changed: a cached dictionary is returned as it is; a row whose model has no index
  gets a new empty dictionary and no cache; otherwise a new dictionary, holding the two
  primary-key entries, is stored in \<open>_dict\<close> and filled by the loop. Nothing reads the
  store while the loop runs, so the new cell is appended with the content the loop leaves,
  also when the loop raises: the row then keeps the partly filled dictionary. An error of
  \<open>django_id\<close> is raised before \<open>_dict\<close> is assigned.
\<close>

definition to_dict :: "row \<Rightarrow> bool \<Rightarrow> store \<Rightarrow> (error + nat) \<times> row \<times> store" where
  "to_dict self fields_inheritance h =
     (case u_dict self of
        Some a \<Rightarrow> (Inr a, self, h)
      | None \<Rightarrow>
          (case index self of
             None \<Rightarrow> (Inr (length h), self, h @ [[]])
           | Some index_fields \<Rightarrow>
               (case django_id self of
                  Inl e \<Rightarrow> (Inl e, self, h)
                | Inr did \<Rightarrow>
                    (case to_dict_loop (self\<lparr>u_dict := Some (length h)\<rparr>) index_fields
                            fields_inheritance
                            (AList.update (pk_attname self) did [(''pk'', pk self)]) of
                       (None, d) \<Rightarrow>
                         (Inr (length h), self\<lparr>u_dict := Some (length h)\<rparr>, h @ [d])
                     | (Some e, d) \<Rightarrow>
                         (Inl e, self\<lparr>u_dict := Some (length h)\<rparr>, h @ [d])))))"

text \<open>Reading a returned reference.\<close>

definition deref :: "store \<Rightarrow> nat \<Rightarrow> pydict" where
  "deref h a = h ! a"

section \<open>Nested query fragments\<close>

text \<open>\<open>sep.join(items)\<close> on strings, and the check that every item is a string.\<close>

fun join :: "string \<Rightarrow> string list \<Rightarrow> string" where
  "join sep [] = []"
| "join sep [s] = s"
| "join sep (s # t # ss) = s @ sep @ join sep (t # ss)"

fun str_items :: "pyval list \<Rightarrow> error + string list" where
  "str_items [] = Inr []"
| "str_items (PStr s # xs) =
     (case str_items xs of Inl e \<Rightarrow> Inl e | Inr ss \<Rightarrow> Inr (s # ss))"
| "str_items (_ # xs) = Inl TypeError"

definition str_join :: "string \<Rightarrow> pyval list \<Rightarrow> error + string" where
  "str_join sep xs = (case str_items xs of Inl e \<Rightarrow> Inl e | Inr ss \<Rightarrow> Inr (join sep ss))"

text \<open>
  \<open>force_str\<close> returns a string unchanged and applies \<open>str\<close> to anything else;
  \<open>str\<close> on the other values is a parameter.
\<close>

definition force_str :: "(pyval \<Rightarrow> string) \<Rightarrow> pyval \<Rightarrow> string" where
  "force_str str_of v = (case v of PStr s \<Rightarrow> s | _ \<Rightarrow> str_of v)"

text \<open>
  A \<open>ParentSQ\<close> node: the children as the base class stores the keyword arguments (pairs
  of path and value), the connector, and the four parsed attributes, \<open>None\<close> while they
  hold the \<open>EMPTY\<close> marker.
\<close>

record parent_sq =
  children :: "(string \<times> pyval) list"
  connector :: string
  u_full_path :: "string option"
  u_path :: "string option"
  u_value :: "pyval option"
  u_key :: "string option"

definition parse_args :: "parent_sq \<Rightarrow> error + parent_sq" where
  "parse_args self =
     (case children self of
        [] \<Rightarrow> Inl IndexError
      | (full_path, v) # _ \<Rightarrow>
          (case (case v of
                   PList xs \<Rightarrow>
                     (case str_join '' '' xs of Inl e \<Rightarrow> Inl e | Inr s \<Rightarrow> Inr (PStr s))
                 | _ \<Rightarrow> Inr v) of
             Inl e \<Rightarrow> Inl e
           | Inr v' \<Rightarrow>
               Inr (self\<lparr>u_full_path := Some full_path,
                           u_value := Some v',
                           u_key := Some (last (split_on CHR ''.'' full_path)),
                           u_path := Some (''/'' @ join ''/'' (butlast (split_on CHR ''.'' full_path)))\<rparr>)))"

definition ParentSQ :: "(string \<times> pyval) list \<Rightarrow> error + parent_sq" where
  "ParentSQ kwargs =
     (if kwargs \<noteq> []
      then parse_args \<lparr>children = kwargs, connector = ''AND'', u_full_path = None,
                        u_path = None, u_value = None, u_key = None\<rparr>
      else Inr \<lparr>children = kwargs, connector = ''AND'', u_full_path = None,
                  u_path = None, u_value = None, u_key = None\<rparr>)"

text \<open>
  The three properties parse on demand when their attribute still holds the marker. The
  parse depends on the children only, so the value read is the one the mutated object
  would give.
\<close>

definition sq_value :: "parent_sq \<Rightarrow> error + pyval option" where
  "sq_value self =
     (if children self \<noteq> [] \<and> u_value self = None
      then (case parse_args self of Inl e \<Rightarrow> Inl e | Inr s \<Rightarrow> Inr (u_value s))
      else Inr (u_value self))"

definition sq_path :: "parent_sq \<Rightarrow> error + string option" where
  "sq_path self =
     (if children self \<noteq> [] \<and> u_path self = None
      then (case parse_args self of Inl e \<Rightarrow> Inl e | Inr s \<Rightarrow> Inr (u_path s))
      else Inr (u_path self))"

definition sq_key :: "parent_sq \<Rightarrow> error + string option" where
  "sq_key self =
     (if children self \<noteq> [] \<and> u_key self = None
      then (case parse_args self of Inl e \<Rightarrow> Inl e | Inr s \<Rightarrow> Inr (u_key s))
      else Inr (u_key self))"

definition parent :: string where
  "parent = ''{!parent which=\"*:* -_nest_path_:*\"}''"

text \<open>
  The fragment for a field and a value. An instance built without arguments keeps the
  marker in its attributes; its fragment would embed the marker's printed form and is not
  rendered: the result is \<open>None\<close> there.
\<close>

definition repr_query_fragment_callback ::
  "(pyval \<Rightarrow> string) \<Rightarrow> parent_sq \<Rightarrow> string \<Rightarrow> string \<Rightarrow> pyval \<Rightarrow> error + string option" where
  "repr_query_fragment_callback str_of self field filter_type v =
     (case (case sq_path self of
              Inl e \<Rightarrow> Inl e
            | Inr None \<Rightarrow> Inr None
            | Inr (Some p) \<Rightarrow>
                if p = ''/''
                then (case sq_key self of
                        Inl e \<Rightarrow> Inl e
                      | Inr None \<Rightarrow> Inr None
                      | Inr (Some k) \<Rightarrow> Inr (Some (''/'' @ k)))
                else Inr (Some p)) of
        Inl e \<Rightarrow> Inl e
      | Inr None \<Rightarrow> Inr None
      | Inr (Some nest_path) \<Rightarrow>
          Inr (Some (parent @ '' ('' @
            join '' ''
              ([''+_nest_path_:\"'' @ nest_path @ ''\"''] @
               (if truthy v then [''+'' @ field @ '':('' @ force_str str_of v @ '')'']
                else [])) @
            '')'')))"

definition as_query_string :: "(pyval \<Rightarrow> string) \<Rightarrow> parent_sq \<Rightarrow> error + string option" where
  "as_query_string str_of self =
     (case sq_key self of
        Inl e \<Rightarrow> Inl e
      | Inr None \<Rightarrow> Inr None
      | Inr (Some k) \<Rightarrow>
          (case sq_value self of
             Inl e \<Rightarrow> Inl e
           | Inr None \<Rightarrow> Inr None
           | Inr (Some v) \<Rightarrow>
               repr_query_fragment_callback str_of self k (connector self) v))"

section \<open>Example rows\<close>

text \<open>
  A row of a model \<open>app.article\<close> with the string primary key \<open>id\<close>, whose index
  declares one plain field \<open>title\<close>. Its allowlist is the empty list, the value the
  query set gives every row when no restriction was asked for. Of what the library gives the
  object the examples list the score, the model and one method.
\<close>

definition example_row :: row where
  "example_row =
     \<lparr>pk = PStr ''42'',
      own_attrs = [(''score'', PInt 1), (''model'', PObject ''Article'')],
      attrs = [(''id'', PStr ''app.article.42''), (''title'', PStr ''t'')],
      class_attrs = [(''to_dict'', PObject ''to_dict'')],
      u_fields = Some [],
      u_dict = None,
      index = Some [(''title'', SearchField None False Inr None)],
      pk_attname = ''id'',
      pk_to_python = (\<lambda>s. Inr (PStr s))\<rparr>"

text \<open>The same row with a second declared field, \<open>subtitle\<close>, that the document lacks.\<close>

definition two_field_row :: row where
  "two_field_row =
     example_row\<lparr>index := Some [(''title'', SearchField None False Inr None),
                               (''subtitle'', SearchField None False Inr None)]\<rparr>"

text \<open>
  A row of a model whose index declares the nested field \<open>author\<close> with the children
  \<open>name\<close> and \<open>email\<close>; the allowlist names \<open>author\<close> and \<open>name\<close>.
\<close>

definition author_field :: field where
  "author_field =
     NestedField None False
       [(''name'', SearchField None False Inr None),
        (''email'', SearchField None False Inr None)]"


text \<open>
  A multi-valued nested field \<open>tags\<close> with one child and the empty list as default.
\<close>

definition tags_field :: field where
  "tags_field = NestedField (Some (PList [])) True [(''name'', SearchField None False Inr None)]"

text \<open>
  A nested field \<open>owner\<close> whose child \<open>name\<close> has the default \<open>anon\<close>, and
  the first row with an index of two plain fields that both have the default \<open>n/a\<close>: one
  called \<open>subtitle\<close> and the document field. The document has neither.
\<close>

definition owner_field :: field where
  "owner_field =
     NestedField None False
       [(''name'', SearchField (Some (PStr ''anon'')) False Inr None),
        (''email'', SearchField None False Inr None)]"

definition defaults_row :: row where
  "defaults_row =
     example_row\<lparr>index := Some [(''subtitle'', SearchField (Some (PStr ''n/a'')) False Inr None),
                               (DOCUMENT_FIELD, SearchField (Some (PStr ''n/a'')) False Inr None)]\<rparr>"

section \<open>Properties of the projection\<close>

subsection \<open>The row is read through its allowlist and its attributes only\<close>

lemma nested_self_cong:
  assumes "is_need_dump_field s1 = is_need_dump_field s2"
  shows "nested_to_dict s1 f v fo = nested_to_dict s2 f v fo"
    and "single_nested_to_dict s1 f v fo = single_nested_to_dict s2 f v fo"
    and "multiple_nested_to_dict s1 f vs fo = multiple_nested_to_dict s2 f vs fo"
    and "single_loop s1 props v fo acc = single_loop s2 props v fo acc"
  using assms
proof (induction s1 f v fo and s1 f v fo and s1 f vs fo and s1 props v fo acc
    rule: nested_to_dict_single_nested_to_dict_multiple_nested_to_dict_single_loop.induct)
  case (1 self f nested fields_only)
  then show ?case by (simp add: nested_to_dict.simps split: pyval.splits)
next
  case (2 self f nested fields_only)
  then show ?case by (simp add: single_nested_to_dict.simps split: field.splits)
next
  case (3 self f fields_only)
  then show ?case by simp
next
  case (4 self f x xs fields_only)
  then show ?case by (simp split: sum.splits)
next
  case (5 self nested fields_only acc)
  then show ?case by simp
next
  case (6 self field_name field_instance rest nested fields_only acc)
  then show ?case by (auto split: sum.splits)
qed

lemma to_dict_loop_self_cong:
  assumes "is_need_dump_field s1 = is_need_dump_field s2" and "getattr_row s1 = getattr_row s2"
  shows "to_dict_loop s1 flds fi d = to_dict_loop s2 flds fi d"
proof (induction flds arbitrary: d)
  case Nil
  show ?case by simp
next
  case (Cons a flds)
  obtain name f where a: "a = (name, f)" by (cases a)
  show ?case
    unfolding a
    by (simp add: assms nested_self_cong(1)[OF assms(1)] Cons.IH
        cong: sum.case_cong if_cong)
qed

lemma is_need_dump_field_iff:
  "\<not> is_need_dump_field self name \<longleftrightarrow> (\<exists>fs. u_fields self = Some fs \<and> fs \<noteq> [] \<and> name \<notin> set fs)"
  by (auto simp: is_need_dump_field_def split: option.splits list.splits)

lemma is_need_dump_field_empty_absent:
  "is_need_dump_field (self\<lparr>u_fields := Some [], u_dict := c\<rparr>) =
   is_need_dump_field (self\<lparr>u_fields := None, u_dict := c'\<rparr>)"
  by (rule ext) (simp add: is_need_dump_field_def)

lemma getattr_row_u_fields: "getattr_row (self\<lparr>u_fields := x\<rparr>) = getattr_row self"
  by (rule ext) (simp add: getattr_row_def cong: option.case_cong)

lemma getattr_row_u_dict: "getattr_row (self\<lparr>u_dict := c\<rparr>) = getattr_row self"
  by (rule ext) (simp add: getattr_row_def cong: option.case_cong)

lemma is_need_dump_field_u_dict:
  "is_need_dump_field (self\<lparr>u_dict := c\<rparr>) = is_need_dump_field self"
  by (rule ext) (simp add: is_need_dump_field_def)

lemma to_dict_loop_u_dict:
  "to_dict_loop (self\<lparr>u_dict := c\<rparr>) flds fi d = to_dict_loop self flds fi d"
  by (rule to_dict_loop_self_cong) (simp_all add: is_need_dump_field_u_dict getattr_row_u_dict)

lemma django_id_swallow:
  "django_id self =
     (if (case getattr_row self ''id'' of
            PStr s \<Rightarrow> pk_to_python self (last (split_on CHR ''.'' s))
          | _ \<Rightarrow> Inl AttributeError) = Inl AttributeError
      then Inr (dict_get (attrs self) ''django_id'')
      else (case getattr_row self ''id'' of
              PStr s \<Rightarrow> pk_to_python self (last (split_on CHR ''.'' s))
            | _ \<Rightarrow> Inl AttributeError))"
  unfolding django_id_def by (simp split: sum.splits error.splits)

lemma django_id_u_fields:
  "django_id (self\<lparr>u_fields := x\<rparr>) = django_id self"
  by (cases "getattr_row self ''id''") (simp_all add: django_id_swallow getattr_row_u_fields)

lemma to_dict_empty_absent:
  "fst (to_dict (self\<lparr>u_fields := Some []\<rparr>) fi h) = fst (to_dict (self\<lparr>u_fields := None\<rparr>) fi h)"
  "snd (snd (to_dict (self\<lparr>u_fields := Some []\<rparr>) fi h)) = snd (snd (to_dict (self\<lparr>u_fields := None\<rparr>) fi h))"
proof -
  have "to_dict_loop (self\<lparr>u_fields := Some [], u_dict := Some (length h)\<rparr>) flds fi d =
        to_dict_loop (self\<lparr>u_fields := None, u_dict := Some (length h)\<rparr>) flds fi d" for flds d
    by (rule to_dict_loop_self_cong)
       (simp_all add: is_need_dump_field_empty_absent getattr_row_u_dict getattr_row_u_fields)
  then show
    "fst (to_dict (self\<lparr>u_fields := Some []\<rparr>) fi h) = fst (to_dict (self\<lparr>u_fields := None\<rparr>) fi h)"
    "snd (snd (to_dict (self\<lparr>u_fields := Some []\<rparr>) fi h)) = snd (snd (to_dict (self\<lparr>u_fields := None\<rparr>) fi h))"
    by (simp_all add: to_dict_def django_id_u_fields split: option.splits sum.splits prod.splits)
qed

text \<open>
  What one turn of the loop of \<open>to_dict\<close> does depends on the field and the row alone: it
  skips the field, or raises, or writes one value under the field's name.
\<close>

lemma to_dict_loop_head:
  obtains (skip) "\<not> (is_need_dump_field self n \<and>
        \<not> (n = DOCUMENT_FIELD \<and> \<not> truthy (getattr_row self n)))"
      "\<And>rest d. to_dict_loop self ((n, g) # rest) fi d = to_dict_loop self rest fi d"
  | (fail) e where "is_need_dump_field self n"
      "\<not> (n = DOCUMENT_FIELD \<and> \<not> truthy (getattr_row self n))"
      "\<And>rest d. to_dict_loop self ((n, g) # rest) fi d = (Some e, d)"
  | (put) w where "is_need_dump_field self n"
      "\<not> (n = DOCUMENT_FIELD \<and> \<not> truthy (getattr_row self n))"
      "\<And>rest d. to_dict_loop self ((n, g) # rest) fi d =
         to_dict_loop self rest fi (AList.update n w d)"
proof (cases "is_need_dump_field self n \<and>
    \<not> (n = DOCUMENT_FIELD \<and> \<not> truthy (getattr_row self n))")
  case False
  then have "to_dict_loop self ((n, g) # rest) fi d = to_dict_loop self rest fi d" for rest d
    by auto
  with False show ?thesis by (rule skip)
next
  case c: True
  then have c1: "is_need_dump_field self n"
    and c2: "\<not> (n = DOCUMENT_FIELD \<and> \<not> truthy (getattr_row self n))"
    by simp_all
  show ?thesis
  proof (cases "is_nested g")
    case True
    show ?thesis
    proof (cases "nested_to_dict self g (getattr_row self n) fi")
      case (Inl e)
      have "to_dict_loop self ((n, g) # rest) fi d = (Some e, d)" for rest d
        using c True Inl by auto
      with c1 c2 show ?thesis by (rule fail)
    next
      case (Inr w)
      have "to_dict_loop self ((n, g) # rest) fi d =
          to_dict_loop self rest fi (AList.update n w d)" for rest d
        using c True Inr by auto
      with c1 c2 show ?thesis by (rule put)
    qed
  next
    case False
    let ?v = "if getattr_row self n = PNone \<and> has_default g then default g
              else getattr_row self n"
    show ?thesis
    proof (cases "convert g ?v")
      case (Inl e)
      have "to_dict_loop self ((n, g) # rest) fi d = (Some e, d)" for rest d
        using c False Inl by (auto split: if_splits)
      with c1 c2 show ?thesis by (rule fail)
    next
      case (Inr w)
      have "to_dict_loop self ((n, g) # rest) fi d =
          to_dict_loop self rest fi (AList.update n w d)" for rest d
        using c False Inr by (auto split: if_splits)
      with c1 c2 show ?thesis by (rule put)
    qed
  qed
qed

text \<open>
  The keys of the dictionary after a loop that did not raise: those it had, and the names of
  the declared fields that pass the allowlist, the document field only when its value is
  not empty.
\<close>

lemma to_dict_loop_keys:
  "to_dict_loop self flds fi d = (None, d') \<Longrightarrow>
     fst ` set d' = fst ` set d \<union>
       {n \<in> fst ` set flds. is_need_dump_field self n \<and>
          \<not> (n = DOCUMENT_FIELD \<and> \<not> truthy (getattr_row self n))}"
proof (induction flds arbitrary: d)
  case Nil
  then show ?case by simp
next
  case (Cons a flds)
  obtain n g where a: "a = (n, g)" by (cases a)
  show ?case
  proof (cases rule: to_dict_loop_head[of self n g fi])
    case skip
    from Cons.IH[OF Cons.prems[unfolded a skip(2)]] skip(1)
    show ?thesis unfolding a by auto
  next
    case (fail e)
    from Cons.prems[unfolded a fail(3)] show ?thesis by simp
  next
    case (put w)
    from Cons.IH[OF Cons.prems[unfolded a put(3)]] put(1,2)
    show ?thesis unfolding a by (auto simp: dom_update)
  qed
qed

lemma to_dict_loop_untouched:
  "to_dict_loop self flds fi d = (r, d') \<Longrightarrow> k \<notin> fst ` set flds \<Longrightarrow> map_of d' k = map_of d k"
proof (induction flds arbitrary: d)
  case Nil
  then show ?case by simp
next
  case (Cons a flds)
  obtain n g where a: "a = (n, g)" by (cases a)
  have k: "k \<noteq> n" "k \<notin> fst ` set flds" using Cons.prems(2) unfolding a by auto
  show ?case
  proof (cases rule: to_dict_loop_head[of self n g fi])
    case skip
    from Cons.IH[OF Cons.prems(1)[unfolded a skip(2)] k(2)] show ?thesis .
  next
    case (fail e)
    from Cons.prems(1)[unfolded a fail(3)] show ?thesis by simp
  next
    case (put w)
    from Cons.IH[OF Cons.prems(1)[unfolded a put(3)] k(2)] k(1)
    show ?thesis by (simp add: update_conv')
  qed
qed

lemma to_dict_fresh:
  assumes "u_dict self = None" and "index self = Some flds"
    and "to_dict self fi h = (Inr a, s', h')"
  shows "\<exists>did d. django_id self = Inr did
           \<and> to_dict_loop self flds fi
                (AList.update (pk_attname self) did [(''pk'', pk self)]) = (None, d)
           \<and> a = length h \<and> s' = self\<lparr>u_dict := Some (length h)\<rparr> \<and> h' = h @ [d]"
proof (cases "django_id self")
  case (Inl e)
  then show ?thesis using assms by (simp add: to_dict_def)
next
  case (Inr did)
  obtain e d where l: "to_dict_loop self flds fi
        (AList.update (pk_attname self) did [(''pk'', pk self)]) = (e, d)"
    by (cases "to_dict_loop self flds fi
        (AList.update (pk_attname self) did [(''pk'', pk self)])")
  have "e = None" "a = length h" "s' = self\<lparr>u_dict := Some (length h)\<rparr>" "h' = h @ [d]"
    using assms Inr l by (cases e; simp add: to_dict_def to_dict_loop_u_dict)+
  then show ?thesis using Inr l by blast
qed

lemma deref_new: "deref (h @ [d]) (length h) = d"
  by (simp add: deref_def)

lemma init_keys:
  "fst ` set (AList.update k v [(''pk'', p)]) = {''pk'', k}"
  unfolding dom_update by auto

text \<open>The keys of a first projection that returns.\<close>

lemma to_dict_keys:
  assumes "u_dict self = None" and "index self = Some flds"
    and "to_dict self fi h = (Inr a, s', h')"
  shows "fst ` set (deref h' a) = {''pk'', pk_attname self} \<union>
      {n \<in> fst ` set flds. is_need_dump_field self n \<and>
         \<not> (n = DOCUMENT_FIELD \<and> \<not> truthy (getattr_row self n))}"
proof -
  obtain did d where d: "to_dict_loop self flds fi
        (AList.update (pk_attname self) did [(''pk'', pk self)]) = (None, d)"
    and a: "a = length h" "h' = h @ [d]"
    using to_dict_fresh[OF assms] by blast
  show ?thesis
    unfolding a deref_new to_dict_loop_keys[OF d] init_keys ..
qed

subsection \<open>Allowlist filtering\<close>

text \<open>
  C1 (amended). A declared field is skipped by the allowlist exactly when the allowlist is a
  non-empty list that does not hold the field's name, and a skipped field leaves the
  dictionary as it is. An allowlist that is given but empty is not a restriction: the
  projection with the empty list returns what the projection without an allowlist returns,
  and leaves the same store. Whatever the allowlist, a first projection of a row of an
  indexed model that returns holds exactly the two primary-key entries and the declared
  fields that pass the allowlist, the document field only when its value is not empty.
  The statements about \<open>to_dict\<close> are for an index that declares no field named like the
  row's own state.
\<close>

theorem allowlist_filtering:
  "(\<not> is_need_dump_field self name \<longleftrightarrow>
      (\<exists>fs. u_fields self = Some fs \<and> fs \<noteq> [] \<and> name \<notin> set fs))
   \<and> (\<not> is_need_dump_field self name \<longrightarrow>
        to_dict_loop self ((name, f) # rest) fi d = to_dict_loop self rest fi d)
   \<and> (index self = Some flds \<and> well_named flds \<longrightarrow>
        fst (to_dict (self\<lparr>u_fields := Some []\<rparr>) fi h) =
          fst (to_dict (self\<lparr>u_fields := None\<rparr>) fi h)
        \<and> snd (snd (to_dict (self\<lparr>u_fields := Some []\<rparr>) fi h)) =
          snd (snd (to_dict (self\<lparr>u_fields := None\<rparr>) fi h)))
   \<and> (u_dict self = None \<and> index self = Some flds \<and> well_named flds
        \<and> to_dict self fi h = (Inr a, s', h') \<longrightarrow>
        fst ` set (deref h' a) = {''pk'', pk_attname self} \<union>
          {n \<in> fst ` set flds. is_need_dump_field self n \<and>
             \<not> (n = DOCUMENT_FIELD \<and> \<not> truthy (getattr_row self n))})"
  using is_need_dump_field_iff[of self name] to_dict_empty_absent[of self fi h]
    to_dict_keys[of self flds fi h a s' h']
  by simp

theorem allowlist_filtering_counterexample:
  "u_fields example_row = Some []
   \<and> fst (to_dict example_row False []) = Inr 0
   \<and> deref (snd (snd (to_dict example_row False []))) 0 =
       [(''pk'', PStr ''42''), (''id'', PStr ''42''), (''title'', PStr ''t'')]"
  by (simp add: example_row_def to_dict_def django_id_def getattr_row_def dict_get_def
      is_need_dump_field_def DOCUMENT_FIELD_def has_default_def deref_def)

theorem allowlist_filtering_witness:
  "is_need_dump_field (two_field_row\<lparr>u_fields := Some [''title'']\<rparr>) ''title''
   \<and> \<not> is_need_dump_field (two_field_row\<lparr>u_fields := Some [''title'']\<rparr>) ''subtitle''
   \<and> to_dict_loop (two_field_row\<lparr>u_fields := Some [''title'']\<rparr>)
        [(''subtitle'', SearchField None False Inr None)] False [] = (None, [])
   \<and> fst (to_dict (two_field_row\<lparr>u_fields := Some []\<rparr>) False []) =
       fst (to_dict (two_field_row\<lparr>u_fields := None\<rparr>) False [])
   \<and> to_dict (two_field_row\<lparr>u_fields := Some [''title'']\<rparr>) False [] =
       (Inr 0, two_field_row\<lparr>u_fields := Some [''title''], u_dict := Some 0\<rparr>,
        [[(''pk'', PStr ''42''), (''id'', PStr ''42''), (''title'', PStr ''t'')]])
   \<and> fst ` set (deref [[(''pk'', PStr ''42''), (''id'', PStr ''42''), (''title'', PStr ''t'')]] 0) =
       {''pk'', ''id'', ''title''}"
proof -
  let ?r = "two_field_row\<lparr>u_fields := Some [''title'']\<rparr>"
  let ?flds = "[(''title'', SearchField None False Inr None),
                (''subtitle'', SearchField None False Inr None)]"
  let ?out = "[[(''pk'', PStr ''42''), (''id'', PStr ''42''), (''title'', PStr ''t'')]]"
  have run: "to_dict ?r False [] =
      (Inr 0, two_field_row\<lparr>u_fields := Some [''title''], u_dict := Some 0\<rparr>, ?out)"
    by (simp add: two_field_row_def example_row_def to_dict_def django_id_def getattr_row_def
        dict_get_def is_need_dump_field_def DOCUMENT_FIELD_def has_default_def)
  have pre: "u_dict ?r = None" "index ?r = Some ?flds" "well_named ?flds"
    "pk_attname ?r = ''id''" "index two_field_row = Some ?flds"
    by (simp_all add: two_field_row_def example_row_def well_named_def own_names_def)
  have need: "is_need_dump_field ?r ''title''" "\<not> is_need_dump_field ?r ''subtitle''"
    by (simp_all add: is_need_dump_field_def)
  note th = allowlist_filtering[of ?r "''subtitle''" "SearchField None False Inr None" "[]"
        False "[]" ?flds "[]" 0
        "two_field_row\<lparr>u_fields := Some [''title''], u_dict := Some 0\<rparr>" ?out]
  note th2 = allowlist_filtering[of two_field_row "''subtitle''"
        "SearchField None False Inr None" "[]" False "[]" ?flds "[]"]
  have keys: "fst ` set (deref ?out 0) = {''pk'', ''id''} \<union>
          {n \<in> fst ` set ?flds. is_need_dump_field ?r n \<and>
             \<not> (n = DOCUMENT_FIELD \<and> \<not> truthy (getattr_row ?r n))}"
    using th run pre by simp
  have eq: "fst (to_dict (two_field_row\<lparr>u_fields := Some []\<rparr>) False []) =
       fst (to_dict (two_field_row\<lparr>u_fields := None\<rparr>) False [])"
    using th2 pre(3,5) by blast
  have skip: "to_dict_loop ?r [(''subtitle'', SearchField None False Inr None)] False [] =
      to_dict_loop ?r [] False []"
    using th need(2) by blast
  have sel: "{n \<in> fst ` set ?flds. is_need_dump_field ?r n \<and>
             \<not> (n = DOCUMENT_FIELD \<and> \<not> truthy (getattr_row ?r n))} = {''title''}"
    using need by (auto simp: DOCUMENT_FIELD_def)
  have "fst ` set (deref ?out 0) = {''pk'', ''id'', ''title''}"
    unfolding keys sel by auto
  then show ?thesis using need run eq skip by simp
qed

subsection \<open>The primary-key entries\<close>

lemma django_id_string:
  assumes "getattr_row self ''id'' = PStr s"
    and "pk_to_python self (last (split_on CHR ''.'' s)) = Inr v"
  shows "django_id self = Inr v"
  using assms by (simp add: django_id_def)

lemma django_id_no_string:
  assumes "\<forall>s. getattr_row self ''id'' \<noteq> PStr s"
  shows "django_id self = Inr (dict_get (attrs self) ''django_id'')"
  using assms by (cases "getattr_row self ''id''") (simp_all add: django_id_def)

text \<open>
  A row whose identifier is not a string has nothing to split: the attribute error stays
  inside the property, and the entry under the attribute name is the row's own entry
  \<open>django_id\<close>, null when it has none.
\<close>

lemma to_dict_id_not_string:
  assumes "u_dict self = None" and "index self = Some flds"
    and "to_dict self fi h = (Inr a, s', h')"
    and "\<forall>s. getattr_row self ''id'' \<noteq> PStr s" and "pk_attname self \<notin> fst ` set flds"
  shows "map_of (deref h' a) (pk_attname self) = Some (dict_get (attrs self) ''django_id'')"
proof -
  obtain did d where did: "django_id self = Inr did"
    and d: "to_dict_loop self flds fi
          (AList.update (pk_attname self) did [(''pk'', pk self)]) = (None, d)"
    and a: "a = length h" "h' = h @ [d]"
    using to_dict_fresh[OF assms(1,2,3)] by blast
  show ?thesis
    unfolding a deref_new
    using to_dict_loop_untouched[OF d assms(5)] did django_id_no_string[OF assms(4)]
    by (simp add: update_conv')
qed

text \<open>
  C2 (amended). For every row that has no cached dictionary and whose model has an index, a
  projection that returns yields a dictionary with the key \<open>pk\<close> and the key named by the
  primary-key attribute. When the composite identifier is a string whose last dot-separated
  piece the primary-key field coerces to a value, that value is under the attribute name,
  unless a declared field has the attribute's name. Unless a declared field is called
  \<open>pk\<close> (or the attribute itself is), the value under \<open>pk\<close> is the row's \<open>pk\<close>.
  The index declares no field named like the row's own state.
\<close>

theorem pk_entries:
  assumes "u_dict self = None" and "index self = Some flds" and "well_named flds"
    and "to_dict self fi h = (Inr a, s', h')"
  shows "''pk'' \<in> fst ` set (deref h' a) \<and> pk_attname self \<in> fst ` set (deref h' a)
       \<and> (\<forall>s v. getattr_row self ''id'' = PStr s
              \<and> pk_to_python self (last (split_on CHR ''.'' s)) = Inr v
              \<and> pk_attname self \<notin> fst ` set flds \<longrightarrow>
              map_of (deref h' a) (pk_attname self) = Some v)
       \<and> (''pk'' \<notin> fst ` set flds \<and> pk_attname self \<noteq> ''pk'' \<longrightarrow>
            map_of (deref h' a) ''pk'' = Some (pk self))"
proof -
  obtain did d where did: "django_id self = Inr did"
    and d: "to_dict_loop self flds fi
          (AList.update (pk_attname self) did [(''pk'', pk self)]) = (None, d)"
    and a: "a = length h" "h' = h @ [d]"
    using to_dict_fresh[OF assms(1,2,4)] by blast
  have keys: "''pk'' \<in> fst ` set d" "pk_attname self \<in> fst ` set d"
    unfolding to_dict_loop_keys[OF d] init_keys by simp_all
  have str: "map_of d (pk_attname self) = Some v"
    if "getattr_row self ''id'' = PStr s"
      "pk_to_python self (last (split_on CHR ''.'' s)) = Inr v"
      "pk_attname self \<notin> fst ` set flds" for s v
    using to_dict_loop_untouched[OF d that(3)] did django_id_string[OF that(1,2)]
    by (simp add: update_conv')
  have pk: "map_of d ''pk'' = Some (pk self)"
    if "''pk'' \<notin> fst ` set flds" "pk_attname self \<noteq> ''pk''"
    using to_dict_loop_untouched[OF d that(1)] that(2) by (simp add: update_conv')
  show ?thesis
    unfolding a deref_new using keys str pk by blast
qed

theorem pk_entries_counterexample:
  "fst (to_dict (example_row\<lparr>index := None\<rparr>) False []) = Inr 0
   \<and> deref (snd (snd (to_dict (example_row\<lparr>index := None\<rparr>) False []))) 0 = []"
  by (simp add: example_row_def to_dict_def deref_def)

theorem pk_entries_witness:
  "u_dict example_row = None
   \<and> index example_row = Some [(''title'', SearchField None False Inr None)]
   \<and> to_dict example_row False [] =
       (Inr 0, example_row\<lparr>u_dict := Some 0\<rparr>,
        [[(''pk'', PStr ''42''), (''id'', PStr ''42''), (''title'', PStr ''t'')]])
   \<and> map_of (deref [[(''pk'', PStr ''42''), (''id'', PStr ''42''), (''title'', PStr ''t'')]] 0)
        ''id'' = Some (PStr ''42'')
   \<and> map_of (deref [[(''pk'', PStr ''42''), (''id'', PStr ''42''), (''title'', PStr ''t'')]] 0)
        ''pk'' = Some (PStr ''42'')"
proof -
  let ?flds = "[(''title'', SearchField None False Inr None)]"
  let ?out = "[[(''pk'', PStr ''42''), (''id'', PStr ''42''), (''title'', PStr ''t'')]]"
  have pre: "u_dict example_row = None" "index example_row = Some ?flds" "well_named ?flds"
    by (simp_all add: example_row_def well_named_def own_names_def)
  have run: "to_dict example_row False [] = (Inr 0, example_row\<lparr>u_dict := Some 0\<rparr>, ?out)"
    by (simp add: example_row_def to_dict_def django_id_def getattr_row_def dict_get_def
        is_need_dump_field_def DOCUMENT_FIELD_def has_default_def)
  have idv: "getattr_row example_row ''id'' = PStr ''app.article.42''"
    "pk_to_python example_row (last (split_on CHR ''.'' ''app.article.42'')) = Inr (PStr ''42'')"
    "pk_attname example_row \<notin> fst ` set ?flds" "pk_attname example_row = ''id''"
    "''pk'' \<notin> fst ` set ?flds" "pk example_row = PStr ''42''"
    by (simp_all add: example_row_def getattr_row_def)
  note th = pk_entries[OF pre run]
  have one: "map_of (deref ?out 0) (pk_attname example_row) = Some (PStr ''42'')"
    using th idv(1,2,3) by blast
  have two: "map_of (deref ?out 0) ''pk'' = Some (pk example_row)"
    using th idv(4,5) by simp
  show ?thesis
    using pre(1,2) run one two unfolding idv(4,6) by simp
qed

subsection \<open>The cached dictionary\<close>

lemma to_dict_cases:
  assumes "to_dict self fi h = (r, s1, h1)"
  obtains (cached) a where "u_dict self = Some a" "r = Inr a" "s1 = self" "h1 = h"
  | (unhandled) "u_dict self = None" "index self = None" "r = Inr (length h)" "s1 = self"
      "h1 = h @ [[]]"
  | (id_error) flds e where "u_dict self = None" "index self = Some flds"
      "django_id self = Inl e" "r = Inl e" "s1 = self" "h1 = h"
  | (fresh) flds did e d where "u_dict self = None" "index self = Some flds"
      "django_id self = Inr did"
      "to_dict_loop (self\<lparr>u_dict := Some (length h)\<rparr>) flds fi
         (AList.update (pk_attname self) did [(''pk'', pk self)]) = (e, d)"
      "r = (case e of None \<Rightarrow> Inr (length h) | Some x \<Rightarrow> Inl x)"
      "s1 = self\<lparr>u_dict := Some (length h)\<rparr>" "h1 = h @ [d]"
proof (cases "u_dict self")
  case (Some a)
  have "r = Inr a" "s1 = self" "h1 = h"
    using assms Some by (simp_all add: to_dict_def)
  then show ?thesis using that(1)[OF Some] by blast
next
  case None
  show ?thesis
  proof (cases "index self")
    case n: None
    have "r = Inr (length h)" "s1 = self" "h1 = h @ [[]]"
      using assms None n by (simp_all add: to_dict_def)
    then show ?thesis using that(2)[OF None n] by blast
  next
    case (Some flds)
    show ?thesis
    proof (cases "django_id self")
      case (Inl e)
      have "r = Inl e" "s1 = self" "h1 = h"
        using assms None Some Inl by (simp_all add: to_dict_def)
      then show ?thesis using that(3)[OF None Some Inl] by blast
    next
      case (Inr did)
      obtain e d where l: "to_dict_loop (self\<lparr>u_dict := Some (length h)\<rparr>) flds fi
            (AList.update (pk_attname self) did [(''pk'', pk self)]) = (e, d)"
        by (cases "to_dict_loop (self\<lparr>u_dict := Some (length h)\<rparr>) flds fi
            (AList.update (pk_attname self) did [(''pk'', pk self)])")
      have "r = (case e of None \<Rightarrow> Inr (length h) | Some x \<Rightarrow> Inl x)"
        "s1 = self\<lparr>u_dict := Some (length h)\<rparr>" "h1 = h @ [d]"
        using assms None Some Inr l by (cases e; simp add: to_dict_def)+
      then show ?thesis using that(4)[OF None Some Inr l] by blast
    qed
  qed
qed

lemma to_dict_cached: "u_dict self = Some a \<Longrightarrow> to_dict self fi h = (Inr a, self, h)"
  by (simp add: to_dict_def)

lemma to_dict_not_handled:
  "u_dict self = None \<Longrightarrow> index self = None \<Longrightarrow> to_dict self fi h = (Inr (length h), self, h @ [[]])"
  by (simp add: to_dict_def)


lemma to_dict_returned_cases:
  assumes "to_dict self fi h = (Inr a, s1, h1)"
  obtains (cached) "u_dict self = Some a" "s1 = self" "h1 = h"
  | (unhandled) "u_dict self = None" "index self = None" "a = length h" "s1 = self"
      "h1 = h @ [[]]"
  | (fresh) d where "u_dict self = None" "index self \<noteq> None" "a = length h"
      "s1 = self\<lparr>u_dict := Some (length h)\<rparr>" "h1 = h @ [d]"
  using assms
proof (cases rule: to_dict_cases)
  case (cached a)
  then show ?thesis using that(1) by simp
next
  case unhandled
  then show ?thesis using that(2) by simp
next
  case (id_error flds e)
  then show ?thesis by simp
next
  case (fresh flds did e d)
  then show ?thesis using that(3)[of d] by (cases e) simp_all
qed

text \<open>
  C3 (amended). When a projection returns, projecting the row again with the same flag
  returns a dictionary equal to the first. For a row that now holds a cache (its model has
  an index, or it was cached before) the second call returns the same reference and changes
  neither the row nor the store. A row whose model has no index is never cached: each call
  allocates a new empty dictionary, so the two references differ. The first call changes
  nothing of the row but \<open>_dict\<close>, leaves every dictionary already in the store as it
  was, and allocates at most one.
\<close>

theorem projection_idempotent:
  assumes "to_dict self fi h = (Inr a, s1, h1)"
  shows "(u_dict s1 \<noteq> None \<longrightarrow> to_dict s1 fi h1 = (Inr a, s1, h1))
       \<and> (u_dict s1 = None \<longrightarrow>
            to_dict s1 fi h1 = (Inr (length h1), s1, h1 @ [[]])
            \<and> deref h1 a = [] \<and> deref (h1 @ [[]]) (length h1) = [] \<and> a \<noteq> length h1)
       \<and> (u_dict s1 = None \<longleftrightarrow> u_dict self = None \<and> index self = None)
       \<and> s1 = self\<lparr>u_dict := u_dict s1\<rparr>
       \<and> take (length h) h1 = h \<and> length h1 \<le> Suc (length h)"
  using assms
proof (cases rule: to_dict_returned_cases)
  case cached
  then show ?thesis by (simp add: to_dict_cached)
next
  case unhandled
  then show ?thesis by (simp add: to_dict_not_handled deref_def nth_append)
next
  case (fresh d)
  then show ?thesis by (simp add: to_dict_cached)
qed

theorem projection_idempotent_counterexample:
  "fst (to_dict (example_row\<lparr>index := None\<rparr>) False []) = Inr 0
   \<and> fst (to_dict (fst (snd (to_dict (example_row\<lparr>index := None\<rparr>) False [])))
            False (snd (snd (to_dict (example_row\<lparr>index := None\<rparr>) False [])))) = Inr 1"
  by (simp add: example_row_def to_dict_def)

theorem projection_idempotent_witness:
  "to_dict example_row False [] =
      (Inr 0, example_row\<lparr>u_dict := Some 0\<rparr>,
       [[(''pk'', PStr ''42''), (''id'', PStr ''42''), (''title'', PStr ''t'')]])
   \<and> to_dict (example_row\<lparr>u_dict := Some 0\<rparr>) False
        [[(''pk'', PStr ''42''), (''id'', PStr ''42''), (''title'', PStr ''t'')]] =
      (Inr 0, example_row\<lparr>u_dict := Some 0\<rparr>,
       [[(''pk'', PStr ''42''), (''id'', PStr ''42''), (''title'', PStr ''t'')]])"
proof -
  have run: "to_dict example_row False [] =
      (Inr 0, example_row\<lparr>u_dict := Some 0\<rparr>,
       [[(''pk'', PStr ''42''), (''id'', PStr ''42''), (''title'', PStr ''t'')]])"
    by (simp add: example_row_def to_dict_def django_id_def getattr_row_def dict_get_def
        is_need_dump_field_def DOCUMENT_FIELD_def has_default_def)
  show ?thesis
    using run projection_idempotent[OF run] by (simp add: to_dict_cached)
qed



subsection \<open>Nested cardinality\<close>

lemma multiple_Inr_iff:
  "multiple_nested_to_dict self f xs fo = Inr ys \<longleftrightarrow>
     list_all2 (\<lambda>x y. single_nested_to_dict self f x fo = Inr y) xs ys"
proof (induction xs arbitrary: ys)
  case Nil
  show ?case by auto
next
  case (Cons x xs)
  show ?case
    unfolding list_all2_Cons1 Cons.IH[symmetric] by (auto split: sum.splits)
qed

lemma nested_to_dict_list:
  "nested_to_dict self f (PList xs) fo =
     (case multiple_nested_to_dict self f xs fo of
        Inl e \<Rightarrow> Inl e | Inr ys \<Rightarrow> Inr (PList (map PDict ys)))"
  by (simp add: nested_to_dict.simps)

lemma nested_to_dict_none:
  "nested_to_dict self f PNone fo = Inr (case fdefault f of Some D \<Rightarrow> D | None \<Rightarrow> PNone)"
  by (simp add: nested_to_dict.simps has_default_def default_def split: option.splits)

text \<open>
  C5. For every multi-valued nested descriptor: a raw single mapping whose projection
  succeeds projects to the one-element list holding the projected dictionary; a raw list
  projects, when its elements project, to the list of their projections, of the same length,
  and a projected list always has that form; a raw null projects to the descriptor's default
  when it has one and to null otherwise.
\<close>

theorem nested_cardinality:
  assumes "is_multivalued f"
  shows "(\<forall>v. single_nested_to_dict self f (PDict d) fo = Inr v \<longrightarrow>
            nested_to_dict self f (PDict d) fo = Inr (PList [PDict v]))
       \<and> (\<forall>ys. list_all2 (\<lambda>x y. single_nested_to_dict self f x fo = Inr y) xs ys \<longrightarrow>
            nested_to_dict self f (PList xs) fo = Inr (PList (map PDict ys))
            \<and> length ys = length xs)
       \<and> (\<forall>r. nested_to_dict self f (PList xs) fo = Inr r \<longrightarrow>
            (\<exists>ys. r = PList (map PDict ys) \<and> length ys = length xs
               \<and> list_all2 (\<lambda>x y. single_nested_to_dict self f x fo = Inr y) xs ys))
       \<and> nested_to_dict self f PNone fo =
            Inr (case fdefault f of Some D \<Rightarrow> D | None \<Rightarrow> PNone)"
proof -
  have one: "nested_to_dict self f (PDict d) fo = Inr (PList [PDict v])"
    if "single_nested_to_dict self f (PDict d) fo = Inr v" for v
    using that assms by (simp add: nested_to_dict.simps)
  have many: "nested_to_dict self f (PList xs) fo = Inr (PList (map PDict ys))
        \<and> length ys = length xs"
    if "list_all2 (\<lambda>x y. single_nested_to_dict self f x fo = Inr y) xs ys" for ys
    using that multiple_Inr_iff[of self f xs fo ys]
    by (simp add: nested_to_dict_list list_all2_lengthD)
  have conv: "\<exists>ys. r = PList (map PDict ys) \<and> length ys = length xs
        \<and> list_all2 (\<lambda>x y. single_nested_to_dict self f x fo = Inr y) xs ys"
    if r: "nested_to_dict self f (PList xs) fo = Inr r" for r
  proof -
    obtain ys where ys: "multiple_nested_to_dict self f xs fo = Inr ys" "r = PList (map PDict ys)"
      using r by (cases "multiple_nested_to_dict self f xs fo") (auto simp: nested_to_dict_list)
    then show ?thesis
      using multiple_Inr_iff[of self f xs fo ys] by (auto simp: list_all2_lengthD)
  qed
  show ?thesis using one many conv nested_to_dict_none by blast
qed

theorem nested_cardinality_witness:
  "is_multivalued tags_field
   \<and> nested_to_dict example_row tags_field (PDict [(''name'', PStr ''a'')]) False =
       Inr (PList [PDict [(''name'', PStr ''a'')]])
   \<and> nested_to_dict example_row tags_field
        (PList [PDict [(''name'', PStr ''a'')], PDict [(''name'', PStr ''b'')]]) False =
       Inr (PList [PDict [(''name'', PStr ''a'')], PDict [(''name'', PStr ''b'')]])
   \<and> nested_to_dict example_row tags_field PNone False = Inr (PList [])"
proof -
  have mv: "is_multivalued tags_field" by (simp add: tags_field_def)
  have s: "single_nested_to_dict example_row tags_field (PDict [(''name'', PStr x)]) False =
      Inr [(''name'', PStr x)]" for x
    by (simp add: tags_field_def single_nested_to_dict.simps dict_get_def has_default_def)
  have l: "list_all2 (\<lambda>x y. single_nested_to_dict example_row tags_field x False = Inr y)
      [PDict [(''name'', PStr ''a'')], PDict [(''name'', PStr ''b'')]]
      [[(''name'', PStr ''a'')], [(''name'', PStr ''b'')]]"
    using s by simp
  note th = nested_cardinality[OF mv, of example_row "[(''name'', PStr ''a'')]" False
      "[PDict [(''name'', PStr ''a'')], PDict [(''name'', PStr ''b'')]]"]
  have one: "nested_to_dict example_row tags_field (PDict [(''name'', PStr ''a'')]) False =
      Inr (PList [PDict [(''name'', PStr ''a'')]])"
    using th s[of "''a''"] by blast
  have two: "nested_to_dict example_row tags_field
        (PList [PDict [(''name'', PStr ''a'')], PDict [(''name'', PStr ''b'')]]) False =
      Inr (PList (map PDict [[(''name'', PStr ''a'')], [(''name'', PStr ''b'')]]))"
    using th l by blast
  have none: "nested_to_dict example_row tags_field PNone False =
      Inr (case fdefault tags_field of Some D \<Rightarrow> D | None \<Rightarrow> PNone)"
    using th by blast
  have dflt: "fdefault tags_field = Some (PList [])" by (simp add: tags_field_def)
  show ?thesis
    using mv one two none unfolding dflt by simp
qed

subsection \<open>Default substitution\<close>

lemma convert_nested: "is_nested f \<Longrightarrow> convert f v = Inr v"
  by (cases f) simp_all

lemma to_dict_loop_default:
  assumes "to_dict_loop self flds fi d = (None, d')" and "distinct (map fst flds)"
    and "(name, f) \<in> set flds" and "fdefault f = Some D"
    and "getattr_row self name = PNone" and "is_need_dump_field self name"
    and "name \<noteq> DOCUMENT_FIELD"
  shows "\<exists>c. convert f D = Inr c \<and> map_of d' name = Some c"
  using assms(1,2,3)
proof (induction flds arbitrary: d)
  case Nil
  then show ?case by simp
next
  case (Cons a flds)
  obtain n g where a: "a = (n, g)" by (cases a)
  show ?case
  proof (cases "(n, g) = (name, f)")
    case True
    then have ng: "n = name" "g = f" by simp_all
    have fresh: "name \<notin> fst ` set flds"
      using Cons.prems(2) unfolding a ng by simp
    have dflt: "has_default f" "default f = D"
      using assms(4) by (simp_all add: has_default_def default_def)
    show ?thesis
    proof (cases "is_nested f")
      case True
      have "nested_to_dict self f PNone fi = Inr D"
        using dflt by (simp add: nested_to_dict.simps)
      then have "to_dict_loop self flds fi (AList.update name D d) = (None, d')"
        using Cons.prems(1) True assms(5,6,7) unfolding a ng by simp
      from to_dict_loop_untouched[OF this fresh] show ?thesis
        using convert_nested[OF True] by (simp add: update_conv')
    next
      case False
      show ?thesis
      proof (cases "convert f D")
        case (Inl e)
        then show ?thesis
          using Cons.prems(1) False assms(5,6,7) dflt unfolding a ng by simp
      next
        case (Inr c)
        then have "to_dict_loop self flds fi (AList.update name c d) = (None, d')"
          using Cons.prems(1) False assms(5,6,7) dflt unfolding a ng by simp
        from to_dict_loop_untouched[OF this fresh] show ?thesis
          using Inr by (simp add: update_conv')
      qed
    qed
  next
    case False
    then have mem: "(name, f) \<in> set flds" using Cons.prems(3) unfolding a by auto
    have dist: "distinct (map fst flds)" using Cons.prems(2) by simp
    show ?thesis
    proof (cases rule: to_dict_loop_head[of self n g fi])
      case skip
      from Cons.IH[OF Cons.prems(1)[unfolded a skip(2)] dist mem] show ?thesis .
    next
      case (fail e)
      from Cons.prems(1)[unfolded a fail(3)] show ?thesis by simp
    next
      case (put w)
      from Cons.IH[OF Cons.prems(1)[unfolded a put(3)] dist mem] show ?thesis .
    qed
  qed
qed

text \<open>
  One turn of the loop of \<open>_single_nested_to_dict\<close>: the child is skipped, or raises, or
  is written under its name, and a plain child bound to the primary key of its model is
  written under that key's name too.
\<close>

lemma single_loop_head:
  obtains (skip) "fo \<and> \<not> is_need_dump_field self n"
      "\<And>rest acc. single_loop self ((n, g) # rest) nested fo acc =
         single_loop self rest nested fo acc"
  | (fail) e where "\<not> (fo \<and> \<not> is_need_dump_field self n)"
      "\<And>rest acc. single_loop self ((n, g) # rest) nested fo acc = Inl e"
  | (put) w where "\<not> (fo \<and> \<not> is_need_dump_field self n)"
      "\<And>rest acc. single_loop self ((n, g) # rest) nested fo acc =
         single_loop self rest nested fo (AList.update n w acc)"
  | (dup) w mn where "\<not> (fo \<and> \<not> is_need_dump_field self n)"
      "\<not> is_nested g" "model_field g = Some (mn, True)"
      "\<And>rest acc. single_loop self ((n, g) # rest) nested fo acc =
         single_loop self rest nested fo (AList.update mn w (AList.update n w acc))"
proof (cases "fo \<and> \<not> is_need_dump_field self n")
  case True
  then have "single_loop self ((n, g) # rest) nested fo acc =
      single_loop self rest nested fo acc" for rest acc
    by simp
  with True show ?thesis by (rule skip)
next
  case c: False
  show ?thesis
  proof (cases "py_get nested n")
    case (Inl e)
    have "single_loop self ((n, g) # rest) nested fo acc = Inl e" for rest acc
      using c Inl by auto
    with c show ?thesis by (rule fail)
  next
    case v: (Inr v)
    show ?thesis
    proof (cases "is_nested g")
      case True
      show ?thesis
      proof (cases "nested_to_dict self g v fo")
        case (Inl e)
        have "single_loop self ((n, g) # rest) nested fo acc = Inl e" for rest acc
          using c v True Inl by auto
        with c show ?thesis by (rule fail)
      next
        case (Inr w)
        have "single_loop self ((n, g) # rest) nested fo acc =
            single_loop self rest nested fo (AList.update n w acc)" for rest acc
          using c v True Inr by auto
        with c show ?thesis by (rule put)
      qed
    next
      case False
      let ?v = "if v = PNone \<and> has_default g then default g else v"
      show ?thesis
      proof (cases "convert g ?v")
        case (Inl e)
        have "single_loop self ((n, g) # rest) nested fo acc = Inl e" for rest acc
          using c v False Inl by (auto split: if_splits)
        with c show ?thesis by (rule fail)
      next
        case (Inr w)
        show ?thesis
        proof (cases "\<exists>mn. model_field g = Some (mn, True)")
          case True
          then obtain mn where mn: "model_field g = Some (mn, True)" by blast
          have "single_loop self ((n, g) # rest) nested fo acc =
              single_loop self rest nested fo (AList.update mn w (AList.update n w acc))"
            for rest acc
            using c v False Inr mn by (auto split: if_splits)
          with c False mn show ?thesis by (rule dup)
        next
          case nodup: False
          have "(case model_field g of
                   Some (mname, True) \<Rightarrow> AList.update mname w (AList.update n w acc)
                 | _ \<Rightarrow> AList.update n w acc) = AList.update n w acc" for acc
            using nodup by (auto split: option.splits prod.splits bool.splits)
          then have "single_loop self ((n, g) # rest) nested fo acc =
              single_loop self rest nested fo (AList.update n w acc)" for rest acc
            using c v False Inr by (auto split: if_splits)
          with c show ?thesis by (rule put)
        qed
      qed
    qed
  qed
qed

lemma single_loop_untouched:
  assumes "single_loop self props nested fo acc = Inr out"
    and "k \<notin> fst ` set props"
    and "\<forall>(m, c') \<in> set props. \<not> (\<not> is_nested c' \<and> model_field c' = Some (k, True))"
  shows "map_of out k = map_of acc k"
  using assms
proof (induction props arbitrary: acc)
  case Nil
  then show ?case by simp
next
  case (Cons a props)
  obtain n g where a: "a = (n, g)" by (cases a)
  have k: "k \<noteq> n" "k \<notin> fst ` set props"
    "\<forall>(m, c') \<in> set props. \<not> (\<not> is_nested c' \<and> model_field c' = Some (k, True))"
    "\<not> (\<not> is_nested g \<and> model_field g = Some (k, True))"
    using Cons.prems(2,3) unfolding a by auto
  show ?case
  proof (cases rule: single_loop_head[of fo self n g nested])
    case skip
    from Cons.IH[OF Cons.prems(1)[unfolded a skip(2)] k(2,3)] show ?thesis .
  next
    case (fail e)
    from Cons.prems(1)[unfolded a fail(2)] show ?thesis by simp
  next
    case (put w)
    from Cons.IH[OF Cons.prems(1)[unfolded a put(2)] k(2,3)] k(1)
    show ?thesis by (simp add: update_conv')
  next
    case (dup w mn)
    have "k \<noteq> mn" using dup(2,3) k(4) by auto
    with Cons.IH[OF Cons.prems(1)[unfolded a dup(4)] k(2,3)] k(1)
    show ?thesis by (simp add: update_conv')
  qed
qed

lemma single_loop_default:
  assumes "single_loop self props nested fo acc = Inr out"
    and "distinct (map fst props)" and "(n, c) \<in> set props" and "fdefault c = Some D"
    and "py_get nested n = Inr PNone" and "\<not> (fo \<and> \<not> is_need_dump_field self n)"
    and "\<forall>(m, c') \<in> set props.
           m \<noteq> n \<longrightarrow> \<not> (\<not> is_nested c' \<and> model_field c' = Some (n, True))"
  shows "\<exists>v. convert c D = Inr v \<and> map_of out n = Some v"
  using assms(1,2,3,7)
proof (induction props arbitrary: acc)
  case Nil
  then show ?case by simp
next
  case (Cons a props)
  obtain m g where a: "a = (m, g)" by (cases a)
  have dist: "distinct (map fst props)" "m \<notin> fst ` set props"
    using Cons.prems(2) unfolding a by simp_all
  have rest: "\<forall>(m, c') \<in> set props.
      m \<noteq> n \<longrightarrow> \<not> (\<not> is_nested c' \<and> model_field c' = Some (n, True))"
    using Cons.prems(4) by simp
  show ?case
  proof (cases "(m, g) = (n, c)")
    case True
    then have mg: "m = n" "g = c" by simp_all
    have fresh: "n \<notin> fst ` set props" using dist(2) mg by simp
    then have quiet: "\<forall>(m, c') \<in> set props.
        \<not> (\<not> is_nested c' \<and> model_field c' = Some (n, True))"
      using rest by force
    have dflt: "has_default c" "default c = D"
      using assms(4) by (simp_all add: has_default_def default_def)
    show ?thesis
    proof (cases "is_nested c")
      case True
      have "nested_to_dict self c PNone fo = Inr D"
        using dflt by (simp add: nested_to_dict.simps)
      then have "single_loop self props nested fo (AList.update n D acc) = Inr out"
        using Cons.prems(1) True assms(5,6) unfolding a mg by auto
      from single_loop_untouched[OF this fresh quiet] show ?thesis
        using convert_nested[OF True] by (simp add: update_conv')
    next
      case False
      show ?thesis
      proof (cases "convert c D")
        case (Inl e)
        then show ?thesis
          using Cons.prems(1) False assms(5,6) dflt unfolding a mg by auto
      next
        case (Inr v)
        let ?acc = "case model_field c of
                      Some (mname, True) \<Rightarrow> AList.update mname v (AList.update n v acc)
                    | _ \<Rightarrow> AList.update n v acc"
        have run: "single_loop self props nested fo ?acc = Inr out"
          using Cons.prems(1) False assms(5,6) dflt Inr unfolding a mg by auto
        have "map_of ?acc n = Some v"
          by (auto simp: update_conv' split: option.splits prod.splits bool.splits)
        with single_loop_untouched[OF run fresh quiet] Inr show ?thesis by simp
      qed
    qed
  next
    case False
    then have mem: "(n, c) \<in> set props" using Cons.prems(3) unfolding a by auto
    show ?thesis
    proof (cases rule: single_loop_head[of fo self m g nested])
      case skip
      from Cons.IH[OF Cons.prems(1)[unfolded a skip(2)] dist(1) mem rest] show ?thesis .
    next
      case (fail e)
      from Cons.prems(1)[unfolded a fail(2)] show ?thesis by simp
    next
      case (put w)
      from Cons.IH[OF Cons.prems(1)[unfolded a put(2)] dist(1) mem rest] show ?thesis .
    next
      case (dup w mn)
      from Cons.IH[OF Cons.prems(1)[unfolded a dup(4)] dist(1) mem rest] show ?thesis .
    qed
  qed
qed

lemma single_nested_default:
  assumes "is_nested g" and "d \<noteq> []"
    and "single_nested_to_dict self g (PDict d) fo = Inr out"
    and "distinct (map fst (properties g))" and "(n, c) \<in> set (properties g)"
    and "fdefault c = Some E" and "dict_get d n = PNone"
    and "\<not> (fo \<and> \<not> is_need_dump_field self n)"
    and "\<forall>(m, c') \<in> set (properties g).
           m \<noteq> n \<longrightarrow> \<not> (\<not> is_nested c' \<and> model_field c' = Some (n, True))"
  shows "\<exists>v. convert c E = Inr v \<and> map_of out n = Some v"
proof -
  have run: "single_loop self (properties g) (PDict d) fo [] = Inr out"
    using assms(1,2,3) by (cases g) (simp_all add: single_nested_to_dict.simps)
  have get: "py_get (PDict d) n = Inr PNone" using assms(7) by simp
  from single_loop_default[OF run assms(4,5,6) get assms(8,9)] show ?thesis .
qed

lemma to_dict_document_field:
  assumes "u_dict self = None" and "index self = Some flds"
    and "to_dict self fi h = (Inr a, s', h')"
    and "\<not> truthy (getattr_row self DOCUMENT_FIELD)" and "pk_attname self \<noteq> DOCUMENT_FIELD"
  shows "map_of (deref h' a) DOCUMENT_FIELD = None"
proof -
  have "DOCUMENT_FIELD \<notin> fst ` set (deref h' a)"
    unfolding to_dict_keys[OF assms(1,2,3)] using assms(4,5)
    by (simp add: DOCUMENT_FIELD_def)
  then show ?thesis by (simp add: map_of_eq_None_iff)
qed

text \<open>
  C6 (amended). A declared default \<open>D\<close> replaces a null raw value wherever a field is
  emitted, and the value written is \<open>D\<close> passed through the field's conversion (for a
  nested field, \<open>D\<close> itself):
  \<^item> for a field of the index that passes the allowlist and is not the document field, read
    from a row without a cached dictionary whose projection returns; the index declares
    distinct names, none of them a name of the row's own state;
  \<^item> for a child of a nested field, read from a raw mapping that is not empty, when the
    child is emitted and the projection of the mapping returns; the children have distinct
    names, and no other plain child copies its primary key under this child's name;
  \<^item> for a nested field at any depth whose raw value is null.

  A raw mapping that is empty projects to the empty dictionary, with no default in it. The
  document field is tested for emptiness first: when its value is empty, and a null is, it
  has no entry in the output, whatever its default.
\<close>

theorem default_substitution:
  "(u_dict self = None \<and> index self = Some flds \<and> well_named flds
      \<and> distinct (map fst flds) \<and> (name, f) \<in> set flds \<and> fdefault f = Some D
      \<and> getattr_row self name = PNone \<and> is_need_dump_field self name
      \<and> name \<noteq> DOCUMENT_FIELD \<and> to_dict self fi h = (Inr a, s', h') \<longrightarrow>
      (\<exists>v. convert f D = Inr v \<and> map_of (deref h' a) name = Some v)
      \<and> (is_nested f \<longrightarrow> map_of (deref h' a) name = Some D))
   \<and> (is_nested g \<and> d \<noteq> [] \<and> single_nested_to_dict self g (PDict d) fo = Inr out
      \<and> distinct (map fst (properties g)) \<and> (n, c) \<in> set (properties g)
      \<and> fdefault c = Some E \<and> dict_get d n = PNone
      \<and> \<not> (fo \<and> \<not> is_need_dump_field self n)
      \<and> (\<forall>(m, c') \<in> set (properties g).
            m \<noteq> n \<longrightarrow> \<not> (\<not> is_nested c' \<and> model_field c' = Some (n, True))) \<longrightarrow>
      (\<exists>v. convert c E = Inr v \<and> map_of out n = Some v)
      \<and> (is_nested c \<longrightarrow> map_of out n = Some E))
   \<and> (fdefault k = Some F \<longrightarrow> nested_to_dict self k PNone fo = Inr F)
   \<and> single_nested_to_dict self g (PDict []) fo = Inr []
   \<and> (u_dict self = None \<and> index self = Some flds \<and> well_named flds
      \<and> to_dict self fi h = (Inr a, s', h')
      \<and> \<not> truthy (getattr_row self DOCUMENT_FIELD) \<and> pk_attname self \<noteq> DOCUMENT_FIELD \<longrightarrow>
      map_of (deref h' a) DOCUMENT_FIELD = None)"
proof -
  have top: "(\<exists>v. convert f D = Inr v \<and> map_of (deref h' a) name = Some v)
      \<and> (is_nested f \<longrightarrow> map_of (deref h' a) name = Some D)"
    if p: "u_dict self = None" "index self = Some flds" "distinct (map fst flds)"
      "(name, f) \<in> set flds" "fdefault f = Some D" "getattr_row self name = PNone"
      "is_need_dump_field self name" "name \<noteq> DOCUMENT_FIELD"
      "to_dict self fi h = (Inr a, s', h')"
  proof -
    obtain did d where d: "to_dict_loop self flds fi
          (AList.update (pk_attname self) did [(''pk'', pk self)]) = (None, d)"
      and a: "a = length h" "h' = h @ [d]"
      using to_dict_fresh[OF p(1,2,9)] by blast
    have v: "\<exists>v. convert f D = Inr v \<and> map_of (deref h' a) name = Some v"
      unfolding a deref_new using to_dict_loop_default[OF d p(3,4,5,6,7,8)] .
    then show ?thesis using convert_nested[of f D] by auto
  qed
  have child: "(\<exists>v. convert c E = Inr v \<and> map_of out n = Some v)
      \<and> (is_nested c \<longrightarrow> map_of out n = Some E)"
    if p: "is_nested g" "d \<noteq> []" "single_nested_to_dict self g (PDict d) fo = Inr out"
      "distinct (map fst (properties g))" "(n, c) \<in> set (properties g)"
      "fdefault c = Some E" "dict_get d n = PNone"
      "\<not> (fo \<and> \<not> is_need_dump_field self n)"
      "\<forall>(m, c') \<in> set (properties g).
           m \<noteq> n \<longrightarrow> \<not> (\<not> is_nested c' \<and> model_field c' = Some (n, True))"
    using single_nested_default[OF p] convert_nested[of c E] by auto
  have deep: "nested_to_dict self k PNone fo = Inr F" if "fdefault k = Some F"
    using that by (simp add: nested_to_dict_none)
  have empty: "single_nested_to_dict self g (PDict []) fo = Inr []"
    by (simp add: single_nested_to_dict.simps)
  have doc: "map_of (deref h' a) DOCUMENT_FIELD = None"
    if "u_dict self = None" "index self = Some flds" "to_dict self fi h = (Inr a, s', h')"
      "\<not> truthy (getattr_row self DOCUMENT_FIELD)" "pk_attname self \<noteq> DOCUMENT_FIELD"
    using to_dict_document_field[OF that] .
  show ?thesis
    using top child deep empty doc by blast
qed

theorem default_substitution_counterexample:
  "convert (SearchField (Some (PStr ''n/a'')) False Inr None) (PStr ''n/a'') = Inr (PStr ''n/a'')
   \<and> getattr_row example_row DOCUMENT_FIELD = PNone
   \<and> fst (to_dict (example_row\<lparr>index :=
              Some [(DOCUMENT_FIELD, SearchField (Some (PStr ''n/a'')) False Inr None)]\<rparr>)
            False []) = Inr 0
   \<and> map_of (deref (snd (snd (to_dict (example_row\<lparr>index :=
              Some [(DOCUMENT_FIELD, SearchField (Some (PStr ''n/a'')) False Inr None)]\<rparr>)
            False []))) 0) DOCUMENT_FIELD = None"
  by (simp add: example_row_def to_dict_def django_id_def getattr_row_def dict_get_def
      is_need_dump_field_def DOCUMENT_FIELD_def has_default_def deref_def)

theorem default_substitution_witness:
  "to_dict defaults_row False [] =
     (Inr 0, defaults_row\<lparr>u_dict := Some 0\<rparr>,
      [[(''pk'', PStr ''42''), (''id'', PStr ''42''), (''subtitle'', PStr ''n/a'')]])
   \<and> map_of (deref [[(''pk'', PStr ''42''), (''id'', PStr ''42''), (''subtitle'', PStr ''n/a'')]] 0)
        ''subtitle'' = Some (PStr ''n/a'')
   \<and> map_of (deref [[(''pk'', PStr ''42''), (''id'', PStr ''42''), (''subtitle'', PStr ''n/a'')]] 0)
        DOCUMENT_FIELD = None
   \<and> single_nested_to_dict defaults_row owner_field (PDict [(''email'', PStr ''e'')]) False =
       Inr [(''name'', PStr ''anon''), (''email'', PStr ''e'')]
   \<and> map_of [(''name'', PStr ''anon''), (''email'', PStr ''e'')] ''name'' = Some (PStr ''anon'')
   \<and> nested_to_dict defaults_row tags_field PNone False = Inr (PList [])
   \<and> single_nested_to_dict defaults_row owner_field (PDict []) False = Inr []"
proof -
  let ?f = "SearchField (Some (PStr ''n/a'')) False Inr None"
  let ?c = "SearchField (Some (PStr ''anon'')) False Inr None"
  let ?flds = "[(''subtitle'', ?f), (DOCUMENT_FIELD, ?f)]"
  let ?out = "[(''pk'', PStr ''42''), (''id'', PStr ''42''), (''subtitle'', PStr ''n/a'')]"
  let ?sub = "[(''name'', PStr ''anon''), (''email'', PStr ''e'')]"
  have run: "to_dict defaults_row False [] = (Inr 0, defaults_row\<lparr>u_dict := Some 0\<rparr>, [?out])"
    by (simp add: defaults_row_def example_row_def to_dict_def django_id_def getattr_row_def
        dict_get_def is_need_dump_field_def DOCUMENT_FIELD_def has_default_def default_def)
  have pre: "u_dict defaults_row = None" "index defaults_row = Some ?flds"
    "well_named ?flds" "distinct (map fst ?flds)" "(''subtitle'', ?f) \<in> set ?flds"
    "fdefault ?f = Some (PStr ''n/a'')" "getattr_row defaults_row ''subtitle'' = PNone"
    "is_need_dump_field defaults_row ''subtitle''" "''subtitle'' \<noteq> DOCUMENT_FIELD"
    "\<not> truthy (getattr_row defaults_row DOCUMENT_FIELD)"
    "pk_attname defaults_row \<noteq> DOCUMENT_FIELD"
    by (simp_all add: defaults_row_def example_row_def getattr_row_def dict_get_def
        is_need_dump_field_def DOCUMENT_FIELD_def well_named_def own_names_def)
  have sub: "single_nested_to_dict defaults_row owner_field (PDict [(''email'', PStr ''e'')])
      False = Inr ?sub"
    by (simp add: owner_field_def single_nested_to_dict.simps dict_get_def has_default_def
        default_def)
  have pre2: "is_nested owner_field" "[(''email'', PStr ''e'')] \<noteq> []"
    "distinct (map fst (properties owner_field))" "(''name'', ?c) \<in> set (properties owner_field)"
    "fdefault ?c = Some (PStr ''anon'')" "dict_get [(''email'', PStr ''e'')] ''name'' = PNone"
    "\<not> (False \<and> \<not> is_need_dump_field defaults_row ''name'')"
    "\<forall>(m, c') \<in> set (properties owner_field).
       m \<noteq> ''name'' \<longrightarrow> \<not> (\<not> is_nested c' \<and> model_field c' = Some (''name'', True))"
    "fdefault tags_field = Some (PList [])"
    by (simp_all add: owner_field_def tags_field_def dict_get_def)
  note th = default_substitution[of defaults_row ?flds "''subtitle''" ?f "PStr ''n/a''"
      False "[]" 0 "defaults_row\<lparr>u_dict := Some 0\<rparr>" "[?out]" owner_field
      "[(''email'', PStr ''e'')]" False ?sub "''name''" ?c "PStr ''anon''" tags_field
      "PList []"]
  have a: "\<exists>v. convert ?f (PStr ''n/a'') = Inr v \<and> map_of (deref [?out] 0) ''subtitle'' = Some v"
    using th pre run by blast
  have b: "\<exists>v. convert ?c (PStr ''anon'') = Inr v \<and> map_of ?sub ''name'' = Some v"
    using th pre2 sub by blast
  have c: "nested_to_dict defaults_row tags_field PNone False = Inr (PList [])"
    using th pre2(9) by blast
  have d: "single_nested_to_dict defaults_row owner_field (PDict []) False = Inr []"
    using th by blast
  have e: "map_of (deref [?out] 0) DOCUMENT_FIELD = None"
    using th pre run by blast
  show ?thesis
    using run a b c d e sub by simp
qed

subsection \<open>The elements of a raw list\<close>

text \<open>
  C4. A raw nested value that is not a mapping, a list or null raises the value error, whose
  message asks for a mapping or a list of mappings. The elements of a list are not tested:
  the list holding the number 1 raises an attribute error when the first child is read from
  the number, the list holding a null projects to the list holding an empty dictionary, and
  for a descriptor without children the list holding the number 1 does so too.
\<close>

theorem nested_list_elements_unchecked:
  "nested_to_dict example_row author_field (PInt 1) False = Inl ValueError
   \<and> nested_to_dict example_row author_field (PList [PInt 1]) False = Inl AttributeError
   \<and> nested_to_dict example_row author_field (PList [PNone]) False = Inr (PList [PDict []])
   \<and> nested_to_dict example_row (NestedField None False []) (PList [PInt 1]) False =
       Inr (PList [PDict []])"
  by (simp add: author_field_def nested_to_dict.simps single_nested_to_dict.simps)

section \<open>Properties of the nested query builder\<close>

lemma split_on_no_sep: "c \<notin> set s \<Longrightarrow> split_on c s = [s]"
  by (induction s) auto


lemma as_query_string_parsed:
  assumes "u_path sq = Some pth" and "u_key sq = Some k" and "u_value sq = Some v"
  shows "as_query_string str_of sq =
           Inr (Some (parent @ '' (+_nest_path_:\"'' @ (if pth = ''/'' then ''/'' @ k else pth) @ ''\"'' @
                      (if truthy v then '' +'' @ k @ '':('' @ force_str str_of v @ '')'' else []) @ '')''))"
  using assms
  by (simp add: as_query_string_def sq_key_def sq_value_def sq_path_def
      repr_query_fragment_callback_def)

lemma ParentSQ_parsed:
  assumes "ParentSQ [(p, v)] = Inr sq"
  shows "u_key sq = Some (last (split_on CHR ''.'' p))"
    and "u_path sq = Some (''/'' @ join ''/'' (butlast (split_on CHR ''.'' p)))"
    and "u_value sq = Some (case v of PList xs \<Rightarrow> (case str_join '' '' xs of Inr s \<Rightarrow> PStr s | Inl e \<Rightarrow> PNone) | _ \<Rightarrow> v)"
  using assms
  by (auto simp: ParentSQ_def parse_args_def split: pyval.splits sum.splits)

text \<open>
  C7. For the dotted path \<open>a.b.c\<close> with the filter value \<open>x\<close> the builder computes
  the key \<open>c\<close> and the nest path \<open>/a/b\<close>, and the emitted fragment contains
  \<open>_nest_path_:"/a/b"\<close> and the term filter \<open>c:(x)\<close>.
\<close>

theorem nested_fragment_a_b_c:
  "\<exists>sq frag. ParentSQ [(''a.b.c'', PStr ''x'')] = Inr sq
      \<and> sq_key sq = Inr (Some ''c'') \<and> sq_path sq = Inr (Some ''/a/b'')
      \<and> as_query_string str_of sq = Inr (Some frag)
      \<and> frag = ''{!parent which=\"*:* -_nest_path_:*\"} (+_nest_path_:\"/a/b\" +c:(x))''
      \<and> sublist ''_nest_path_:\"/a/b\"'' frag \<and> sublist ''c:(x)'' frag"
proof -
  let ?frag = "''{!parent which=\"*:* -_nest_path_:*\"} (+_nest_path_:\"/a/b\" +c:(x))''"
  obtain sq where sq: "ParentSQ [(''a.b.c'', PStr ''x'')] = Inr sq"
    by (simp add: ParentSQ_def parse_args_def)
  have k: "u_key sq = Some ''c''" and pth: "u_path sq = Some ''/a/b''"
    and v: "u_value sq = Some (PStr ''x'')"
    using ParentSQ_parsed[OF sq] by simp_all
  have "as_query_string str_of sq = Inr (Some ?frag)"
    using as_query_string_parsed[OF pth k v, of str_of] by (simp add: parent_def force_str_def)
  moreover have "sublist ''_nest_path_:\"/a/b\"'' ?frag" by code_simp
  moreover have "sublist ''c:(x)'' ?frag" by code_simp
  ultimately show ?thesis
    using sq k pth unfolding sq_key_def sq_path_def by (intro exI[of _ sq] exI[of _ ?frag]) simp
qed

text \<open>
  C8. For every path without a dot the computed nest path is the root \<open>/\<close>, the key is
  the path itself, and the fragment uses \<open>/key\<close> as the effective nest path. For every
  path, when the filter value is absent or empty (null, the empty string, the empty list)
  the fragment is the existence-only form: the nest path clause and no term filter.
\<close>

theorem root_path_degeneration:
  assumes "ParentSQ [(p, v)] = Inr sq"
  shows "(CHR ''.'' \<notin> set p \<longrightarrow>
            sq_path sq = Inr (Some ''/'') \<and> sq_key sq = Inr (Some p)
            \<and> (\<exists>v'. sq_value sq = Inr (Some v') \<and>
                 as_query_string str_of sq =
                   Inr (Some (parent @ '' (+_nest_path_:\"/'' @ p @ ''\"'' @
                              (if truthy v' then '' +'' @ p @ '':('' @ force_str str_of v' @ '')''
                               else []) @ '')''))))
       \<and> (v = PNone \<or> v = PStr [] \<or> v = PList [] \<longrightarrow>
            as_query_string str_of sq =
              Inr (Some (parent @ '' (+_nest_path_:\"'' @
                   (if join ''/'' (butlast (split_on CHR ''.'' p)) = []
                    then ''/'' @ last (split_on CHR ''.'' p)
                    else ''/'' @ join ''/'' (butlast (split_on CHR ''.'' p))) @ ''\")'')))"
proof -
  note k = ParentSQ_parsed(1)[OF assms] and pth = ParentSQ_parsed(2)[OF assms]
  obtain v' where v': "u_value sq = Some v'"
    using ParentSQ_parsed(3)[OF assms] by blast
  note frag = as_query_string_parsed[OF pth k v', of str_of]
  have falsy: "\<not> truthy v'" if "v = PNone \<or> v = PStr [] \<or> v = PList []"
    using that v' ParentSQ_parsed(3)[OF assms] by (auto simp: str_join_def)
  have root: "sq_path sq = Inr (Some ''/'') \<and> sq_key sq = Inr (Some p)
            \<and> (\<exists>v'. sq_value sq = Inr (Some v') \<and>
                 as_query_string str_of sq =
                   Inr (Some (parent @ '' (+_nest_path_:\"/'' @ p @ ''\"'' @
                              (if truthy v' then '' +'' @ p @ '':('' @ force_str str_of v' @ '')''
                               else []) @ '')'')))"
    if "CHR ''.'' \<notin> set p"
    using k pth v' frag split_on_no_sep[OF that]
    by (simp add: sq_key_def sq_path_def sq_value_def)
  have exist: "as_query_string str_of sq =
              Inr (Some (parent @ '' (+_nest_path_:\"'' @
                   (if join ''/'' (butlast (split_on CHR ''.'' p)) = []
                    then ''/'' @ last (split_on CHR ''.'' p)
                    else ''/'' @ join ''/'' (butlast (split_on CHR ''.'' p))) @ ''\")''))"
    if "v = PNone \<or> v = PStr [] \<or> v = PList []"
    using frag falsy[OF that] by simp
  show ?thesis using root exist by blast
qed

theorem root_path_degeneration_witness:
  "\<exists>sq. ParentSQ [(''a'', PNone)] = Inr sq
       \<and> sq_path sq = Inr (Some ''/'') \<and> sq_key sq = Inr (Some ''a'')
       \<and> as_query_string (\<lambda>v. []) sq =
           Inr (Some ''{!parent which=\"*:* -_nest_path_:*\"} (+_nest_path_:\"/a\")'')"
proof -
  obtain sq where sq: "ParentSQ [(''a'', PNone)] = Inr sq"
    by (simp add: ParentSQ_def parse_args_def)
  show ?thesis
    using sq root_path_degeneration[OF sq, of "\<lambda>v. []"] by (simp add: parent_def)
qed



end
